theory Spec2Isabelle
  imports Complex_Main
begin

section \<open>JavaScript numbers\<close>

text \<open>
  A JavaScript number is a finite value, one of the two infinities, or NaN. Finite
  values are modelled as exact reals: the rounding error of double arithmetic is not
  modelled, and the two zeros are not told apart (the only divisor of the source is a
  difference of two integers, which is never the negative zero).
\<close>

datatype jsnum = Fin real | PosInf | NegInf | NaN

text \<open>\<^verbatim>\<open>a / b\<close> for two finite operands.\<close>

definition js_div :: "real \<Rightarrow> real \<Rightarrow> jsnum" where
  "js_div a b =
     (if b = 0 then (if a = 0 then NaN else if 0 < a then PosInf else NegInf)
      else Fin (a / b))"

text \<open>\<^verbatim>\<open>x * k\<close> for a finite right operand.\<close>

fun js_mul :: "jsnum \<Rightarrow> real \<Rightarrow> jsnum" where
  "js_mul (Fin x) k = Fin (x * k)"
| "js_mul PosInf k = (if k = 0 then NaN else if 0 < k then PosInf else NegInf)"
| "js_mul NegInf k = (if k = 0 then NaN else if 0 < k then NegInf else PosInf)"
| "js_mul NaN k = NaN"

text \<open>\<^verbatim>\<open>Math.round\<close>: the nearest integer, a tie going up; infinities and NaN pass through.\<close>

definition round_half_up :: "real \<Rightarrow> int" where
  "round_half_up x = \<lfloor>x + 1 / 2\<rfloor>"

fun Math_round :: "jsnum \<Rightarrow> jsnum" where
  "Math_round (Fin x) = Fin (of_int (round_half_up x))"
| "Math_round PosInf = PosInf"
| "Math_round NegInf = NegInf"
| "Math_round NaN = NaN"

text \<open>\<^verbatim>\<open>Math.max\<close> of two numbers: NaN as soon as one argument is NaN.\<close>

fun Math_max :: "jsnum \<Rightarrow> jsnum \<Rightarrow> jsnum" where
  "Math_max NaN y = NaN"
| "Math_max x NaN = NaN"
| "Math_max PosInf y = PosInf"
| "Math_max x PosInf = PosInf"
| "Math_max NegInf y = y"
| "Math_max x NegInf = x"
| "Math_max (Fin a) (Fin b) = Fin (max a b)"

text \<open>The comparisons \<^verbatim>\<open><\<close> and \<^verbatim>\<open><=\<close>: false as soon as one operand is NaN.\<close>

fun js_less :: "jsnum \<Rightarrow> jsnum \<Rightarrow> bool" where
  "js_less NaN y = False"
| "js_less x NaN = False"
| "js_less x NegInf = False"
| "js_less PosInf y = False"
| "js_less NegInf y = True"
| "js_less x PosInf = True"
| "js_less (Fin a) (Fin b) = (a < b)"

fun js_le :: "jsnum \<Rightarrow> jsnum \<Rightarrow> bool" where
  "js_le NaN y = False"
| "js_le x NaN = False"
| "js_le NegInf y = True"
| "js_le x PosInf = True"
| "js_le x NegInf = False"
| "js_le PosInf y = False"
| "js_le (Fin a) (Fin b) = (a \<le> b)"

section \<open>Strings\<close>

text \<open>\<^verbatim>\<open>s.includes(sub)\<close>: \<open>sub\<close> occurs in \<open>s\<close> as a contiguous run.\<close>

fun starts_with :: "string \<Rightarrow> string \<Rightarrow> bool" where
  "starts_with s [] = True"
| "starts_with [] (c # cs) = False"
| "starts_with (d # ds) (c # cs) = (d = c \<and> starts_with ds cs)"

fun js_includes :: "string \<Rightarrow> string \<Rightarrow> bool" where
  "js_includes [] sub = (sub = [])"
| "js_includes (c # cs) sub = (starts_with (c # cs) sub \<or> js_includes cs sub)"

text \<open>\<^verbatim>\<open>s.replace('#', '')\<close>: the first \<^verbatim>\<open>#\<close> is dropped, the others stay.\<close>

fun replace_hash :: "string \<Rightarrow> string" where
  "replace_hash [] = []"
| "replace_hash (c # cs) = (if c = CHR ''#'' then cs else c # replace_hash cs)"

section \<open>The analytics sink and the tracker state\<close>

text \<open>
  One call \<^verbatim>\<open>gtag('event', action, {event_category, event_label, value})\<close>. The value
  is \<open>None\<close> where the source passes no fourth argument (\<^verbatim>\<open>undefined\<close>).
\<close>

record gtag_call =
  action :: string
  event_category :: string
  event_label :: string
  event_value :: "jsnum option"

datatype js_error = ReferenceError | TypeError | Thrown string

text \<open>
  The global \<^verbatim>\<open>gtag\<close> is outside the repository. It is \<open>None\<close> when no such global is
  declared; a declared one either returns (\<open>None\<close>) or throws (\<open>Some e\<close>) on a call.
\<close>

type_synonym sink = "(gtag_call \<Rightarrow> js_error option) option"

text \<open>
  The two clocks of the browser, \<^verbatim>\<open>performance.now()\<close> and \<^verbatim>\<open>Date.now()\<close>, read at one
  moment. A listener gets one such reading for its whole run.
\<close>

record instant =
  perf_now :: real
  date_now :: int

text \<open>The entries pushed on \<^verbatim>\<open>this.interactions\<close>; the last field is the timestamp.\<close>

datatype interaction =
  Navigation string int
| Social string int
| Project string string int
| Cta string int
| Theme string int
| SectionView string int

fun itype :: "interaction \<Rightarrow> string" where
  "itype (Navigation section ts) = ''navigation''"
| "itype (Social platform ts) = ''social''"
| "itype (Project project linkType ts) = ''project''"
| "itype (Cta button ts) = ''cta''"
| "itype (Theme theme ts) = ''theme''"
| "itype (SectionView section ts) = ''section_view''"

text \<open>
  The fields of a \<^verbatim>\<open>PortfolioAnalytics\<close> object, the variables its listeners close over
  (\<open>maxScroll\<close>, \<open>scrollTimeout\<close>: whether the one-second timer is pending,
  \<open>sectionViews\<close>), and \<open>delivered\<close>: the calls that \<^verbatim>\<open>gtag\<close> has received and returned
  from, oldest first.
\<close>

record analytics =
  startTime :: real
  interactions :: "interaction list"
  performanceMetrics :: "(string \<times> jsnum) list"
  maxScroll :: jsnum
  scrollTimeout :: bool
  sectionViews :: "string \<rightharpoonup> int"
  delivered :: "gtag_call list"

definition constructor :: "instant \<Rightarrow> analytics" where
  "constructor now =
     \<lparr>startTime = perf_now now, interactions = [], performanceMetrics = [],
      maxScroll = Fin 0, scrollTimeout = False, sectionViews = Map.empty, delivered = []\<rparr>"

text \<open>
  How a listener's run ends: with the state it leaves (\<open>Inr\<close>), or with the exception it
  lets through and the state reached at the throw (\<open>Inl\<close>).
\<close>

type_synonym outcome = "(js_error \<times> analytics) + analytics"

text \<open>Calling the global: a ReferenceError when it is not declared.\<close>

fun gtag :: "sink \<Rightarrow> gtag_call \<Rightarrow> analytics \<Rightarrow> outcome" where
  "gtag None c w = Inl (ReferenceError, w)"
| "gtag (Some g) c w =
     (case g c of
        Some e \<Rightarrow> Inl (e, w)
      | None \<Rightarrow> Inr (w\<lparr>delivered := delivered w @ [c]\<rparr>))"

fun typeof_gtag :: "sink \<Rightarrow> string" where
  "typeof_gtag None = ''undefined''"
| "typeof_gtag (Some g) = ''function''"

definition trackEvent ::
  "sink \<Rightarrow> string \<Rightarrow> string \<Rightarrow> string \<Rightarrow> jsnum option \<Rightarrow> analytics \<Rightarrow> outcome" where
  "trackEvent sink act category label v w =
     (if typeof_gtag sink \<noteq> ''undefined''
      then gtag sink \<lparr>action = act, event_category = category, event_label = label,
                      event_value = v\<rparr> w
      else Inr w)"

section \<open>Conversions and the summary\<close>

definition trackConversion ::
  "sink \<Rightarrow> string \<Rightarrow> jsnum option \<Rightarrow> analytics \<Rightarrow> outcome" where
  "trackConversion sink type v w =
     (case trackEvent sink ''conversion'' ''Conversion'' type v w of
        Inl e \<Rightarrow> Inl e
      | Inr w1 \<Rightarrow>
          if type = ''contact_attempt''
          then trackEvent sink ''contact_attempt'' ''Lead Generation'' ''Contact Form''
                 (Some (Fin 1)) w1
          else if type = ''project_engagement''
          then trackEvent sink ''project_engagement'' ''Portfolio Engagement'' ''Project View''
                 (Some (Fin 1)) w1
          else if type = ''resume_download''
          then trackEvent sink ''resume_download'' ''Lead Generation'' ''Resume Download''
                 (Some (Fin 1)) w1
          else Inr w1)"

text \<open>
  \<^verbatim>\<open>summary[t] = (summary[t] || 0) + 1\<close> on an object whose keys keep their insertion
  order: the count of an existing key goes up in place, a new key is added at the end.
\<close>

fun bump :: "string \<Rightarrow> (string \<times> nat) list \<Rightarrow> (string \<times> nat) list" where
  "bump t [] = [(t, 1)]"
| "bump t ((k, n) # kvs) = (if k = t then (k, n + 1) # kvs else (k, n) # bump t kvs)"

definition getInteractionSummary :: "analytics \<Rightarrow> (string \<times> nat) list" where
  "getInteractionSummary w = foldl (\<lambda>summary i. bump (itype i) summary) [] (interactions w)"

record summary =
  summary_performanceMetrics :: "(string \<times> jsnum) list"
  totalInteractions :: nat
  interactionTypes :: "(string \<times> nat) list"
  sessionDuration :: real

definition getAnalyticsSummary :: "instant \<Rightarrow> analytics \<Rightarrow> summary" where
  "getAnalyticsSummary now w =
     \<lparr>summary_performanceMetrics = performanceMetrics w,
      totalInteractions = length (interactions w),
      interactionTypes = getInteractionSummary w,
      sessionDuration = of_int (date_now now) - startTime w\<rparr>"

section \<open>Page load\<close>

text \<open>What the load listener reads from \<^verbatim>\<open>performance\<close>; a paint entry is its name and start time.\<close>

record nav_timing =
  domContentLoadedEventStart :: real
  domContentLoadedEventEnd :: real
  loadEventStart :: real
  loadEventEnd :: real

record performance_api =
  has_getEntriesByType :: bool
  navigation_entries :: "nav_timing list"
  paint_entries :: "(string \<times> real) list"

definition getFirstPaint :: "performance_api \<Rightarrow> jsnum" where
  "getFirstPaint p =
     (case find (\<lambda>entry. fst entry = ''first-paint'') (paint_entries p) of
        Some firstPaint \<Rightarrow> Math_round (Fin (snd firstPaint))
      | None \<Rightarrow> Fin 0)"

definition getFirstContentfulPaint :: "performance_api \<Rightarrow> jsnum" where
  "getFirstContentfulPaint p =
     (case find (\<lambda>entry. fst entry = ''first-contentful-paint'') (paint_entries p) of
        Some firstContentfulPaint \<Rightarrow> Math_round (Fin (snd firstContentfulPaint))
      | None \<Rightarrow> Fin 0)"

text \<open>The \<^verbatim>\<open>forEach\<close> over \<^verbatim>\<open>Object.entries(this.performanceMetrics)\<close>.\<close>

fun send_metrics :: "sink \<Rightarrow> (string \<times> jsnum) list \<Rightarrow> analytics \<Rightarrow> outcome" where
  "send_metrics sink [] w = Inr w"
| "send_metrics sink ((metric, v) # rest) w =
     (if js_less (Fin 0) v
      then (case trackEvent sink metric ''Performance'' metric (Some v) w of
              Inl e \<Rightarrow> Inl e
            | Inr w1 \<Rightarrow> send_metrics sink rest w1)
      else send_metrics sink rest w)"

text \<open>The listener that \<^verbatim>\<open>trackPageLoad\<close> registers for the load event.\<close>

definition trackPageLoad ::
  "sink \<Rightarrow> instant \<Rightarrow> performance_api \<Rightarrow> analytics \<Rightarrow> outcome" where
  "trackPageLoad sink now p w =
     (let loadTime = perf_now now - startTime w in
      case trackEvent sink ''page_load_time'' ''Performance'' ''Load Time''
             (Some (Math_round (Fin loadTime))) w of
        Inl e \<Rightarrow> Inl e
      | Inr w1 \<Rightarrow>
          if has_getEntriesByType p
          then (case navigation_entries p of
                  [] \<Rightarrow> Inr w1
                | navTiming # others \<Rightarrow>
                    let w2 = w1\<lparr>performanceMetrics :=
                          [(''domContentLoaded'',
                              Math_round (Fin (domContentLoadedEventEnd navTiming
                                                - domContentLoadedEventStart navTiming))),
                           (''loadComplete'',
                              Math_round (Fin (loadEventEnd navTiming - loadEventStart navTiming))),
                           (''firstPaint'', getFirstPaint p),
                           (''firstContentfulPaint'', getFirstContentfulPaint p)]\<rparr>
                    in send_metrics sink (performanceMetrics w2) w2)
          else Inr w1)"

section \<open>Clicks\<close>

text \<open>
  The click listeners of \<^verbatim>\<open>trackUserInteractions\<close>. What they read from the document is
  their argument; a lookup that the document answers with \<^verbatim>\<open>null\<close> is \<open>None\<close>, and the
  method call on it throws a TypeError.
\<close>

definition nav_click ::
  "sink \<Rightarrow> instant \<Rightarrow> string option \<Rightarrow> analytics \<Rightarrow> outcome" where
  "nav_click sink now href w =
     (case href of
        None \<Rightarrow> Inl (TypeError, w)
      | Some h \<Rightarrow>
          let section = replace_hash h in
          case trackEvent sink ''navigation_click'' ''User Interaction'' section None w of
            Inl e \<Rightarrow> Inl e
          | Inr w1 \<Rightarrow>
              Inr (w1\<lparr>interactions := interactions w1 @ [Navigation section (date_now now)]\<rparr>))"

definition getSocialPlatform :: "string \<Rightarrow> string" where
  "getSocialPlatform url =
     (if js_includes url ''linkedin'' then ''LinkedIn''
      else if js_includes url ''github'' then ''GitHub''
      else if js_includes url ''codechef'' then ''CodeChef''
      else ''Unknown'')"

definition social_click ::
  "sink \<Rightarrow> instant \<Rightarrow> string \<Rightarrow> analytics \<Rightarrow> outcome" where
  "social_click sink now href w =
     (let platform = getSocialPlatform href in
      case trackEvent sink ''social_click'' ''User Interaction'' platform None w of
        Inl e \<Rightarrow> Inl e
      | Inr w1 \<Rightarrow>
          Inr (w1\<lparr>interactions := interactions w1 @ [Social platform (date_now now)]\<rparr>))"

text \<open>
  \<open>title\<close> is the text of the \<^verbatim>\<open>h4\<close> of the enclosing \<^verbatim>\<open>.project-card\<close>: \<open>None\<close> when
  \<^verbatim>\<open>closest\<close> or \<^verbatim>\<open>querySelector\<close> finds nothing.
\<close>

definition project_click ::
  "sink \<Rightarrow> instant \<Rightarrow> string \<Rightarrow> string option \<Rightarrow> analytics \<Rightarrow> outcome" where
  "project_click sink now textContent title w =
     (let linkType = (if js_includes textContent ''Demo'' then ''live_demo'' else ''repository'') in
      case title of
        None \<Rightarrow> Inl (TypeError, w)
      | Some projectTitle \<Rightarrow>
          case trackEvent sink ''project_click'' ''User Interaction''
                 (projectTitle @ '' - '' @ linkType) None w of
            Inl e \<Rightarrow> Inl e
          | Inr w1 \<Rightarrow>
              Inr (w1\<lparr>interactions :=
                         interactions w1 @ [Project projectTitle linkType (date_now now)]\<rparr>))"

text \<open>\<^verbatim>\<open>trim\<close>, on the ASCII white space.\<close>

definition is_space :: "char \<Rightarrow> bool" where
  "is_space c = (c \<in> set [CHR '' '', CHR 0x09, CHR 0x0A, CHR 0x0B, CHR 0x0C, CHR 0x0D])"

definition trim :: "string \<Rightarrow> string" where
  "trim s = rev (dropWhile is_space (rev (dropWhile is_space s)))"

definition cta_click ::
  "sink \<Rightarrow> instant \<Rightarrow> string \<Rightarrow> analytics \<Rightarrow> outcome" where
  "cta_click sink now textContent w =
     (let buttonText = trim textContent in
      case trackEvent sink ''cta_click'' ''User Interaction'' buttonText None w of
        Inl e \<Rightarrow> Inl e
      | Inr w1 \<Rightarrow>
          Inr (w1\<lparr>interactions := interactions w1 @ [Cta buttonText (date_now now)]\<rparr>))"

text \<open>\<open>data_theme\<close> is \<^verbatim>\<open>document.body.getAttribute('data-theme')\<close>.\<close>

definition theme_click ::
  "sink \<Rightarrow> instant \<Rightarrow> string option \<Rightarrow> analytics \<Rightarrow> outcome" where
  "theme_click sink now data_theme w =
     (let currentTheme = (case data_theme of
                            None \<Rightarrow> ''light''
                          | Some t \<Rightarrow> if t = [] then ''light'' else t);
          newTheme = (if currentTheme = ''light'' then ''dark'' else ''light'') in
      case trackEvent sink ''theme_change'' ''User Interaction'' newTheme None w of
        Inl e \<Rightarrow> Inl e
      | Inr w1 \<Rightarrow>
          Inr (w1\<lparr>interactions := interactions w1 @ [Theme newTheme (date_now now)]\<rparr>))"

section \<open>Scroll depth\<close>

text \<open>
  The scroll listener of \<^verbatim>\<open>trackScrollBehavior\<close>, given \<^verbatim>\<open>window.scrollY\<close>,
  \<^verbatim>\<open>document.body.scrollHeight\<close> and \<^verbatim>\<open>window.innerHeight\<close>: it moves the running
  maximum and (re)starts the one-second timer.
\<close>

definition scrollPercent :: "real \<Rightarrow> int \<Rightarrow> int \<Rightarrow> jsnum" where
  "scrollPercent scrollY scrollHeight innerHeight =
     Math_round (js_mul (js_div scrollY (of_int (scrollHeight - innerHeight))) 100)"

definition scroll :: "real \<Rightarrow> int \<Rightarrow> int \<Rightarrow> analytics \<Rightarrow> analytics" where
  "scroll scrollY scrollHeight innerHeight w =
     w\<lparr>maxScroll := Math_max (maxScroll w) (scrollPercent scrollY scrollHeight innerHeight),
       scrollTimeout := True\<rparr>"

text \<open>The timer's callback, one second after the last scroll event.\<close>

definition scroll_timeout :: "sink \<Rightarrow> analytics \<Rightarrow> outcome" where
  "scroll_timeout sink w =
     (if scrollTimeout w
      then trackEvent sink ''scroll_depth'' ''User Behavior'' ''Max Scroll Percentage''
             (Some (maxScroll w)) (w\<lparr>scrollTimeout := False\<rparr>)
      else Inr w)"

section \<open>Section views\<close>

record intersection_entry =
  isIntersecting :: bool
  intersectionRatio :: real
  target_id :: string

text \<open>The body of the \<^verbatim>\<open>forEach\<close> in the observer callback of \<^verbatim>\<open>trackSectionViews\<close>.\<close>

definition section_entry ::
  "sink \<Rightarrow> instant \<Rightarrow> intersection_entry \<Rightarrow> analytics \<Rightarrow> outcome" where
  "section_entry sink now entry w =
     (if isIntersecting entry \<and> 1 / 2 < intersectionRatio entry
      then let sectionId = target_id entry in
           if sectionViews w sectionId = None
           then let w1 = w\<lparr>sectionViews := (sectionViews w)(sectionId \<mapsto> date_now now)\<rparr> in
                case trackEvent sink ''section_view'' ''User Behavior'' sectionId None w1 of
                  Inl e \<Rightarrow> Inl e
                | Inr w2 \<Rightarrow>
                    Inr (w2\<lparr>interactions :=
                               interactions w2 @ [SectionView sectionId (date_now now)]\<rparr>)
           else Inr w
      else Inr w)"

fun section_entries ::
  "sink \<Rightarrow> instant \<Rightarrow> intersection_entry list \<Rightarrow> analytics \<Rightarrow> outcome" where
  "section_entries sink now [] w = Inr w"
| "section_entries sink now (entry # entries) w =
     (case section_entry sink now entry w of
        Inl e \<Rightarrow> Inl e
      | Inr w1 \<Rightarrow> section_entries sink now entries w1)"

section \<open>Memory, long tasks, errors, page exit\<close>

text \<open>The interval callback of \<^verbatim>\<open>trackPerformanceMetrics\<close>, given \<^verbatim>\<open>performance.memory\<close>.\<close>

record memory =
  usedJSHeapSize :: real
  totalJSHeapSize :: real
  jsHeapSizeLimit :: real

definition memory_sample :: "sink \<Rightarrow> memory \<Rightarrow> analytics \<Rightarrow> outcome" where
  "memory_sample sink m w =
     (let memoryInfo = \<lparr>usedJSHeapSize = of_int (round_half_up (usedJSHeapSize m / 1048576)),
                         totalJSHeapSize = of_int (round_half_up (totalJSHeapSize m / 1048576)),
                         jsHeapSizeLimit = of_int (round_half_up (jsHeapSizeLimit m / 1048576))\<rparr> in
      if 10 < usedJSHeapSize memoryInfo
      then trackEvent sink ''memory_usage'' ''Performance'' ''Used JS Heap Size (MB)''
             (Some (Fin (usedJSHeapSize memoryInfo))) w
      else Inr w)"

text \<open>The long-task observer's callback, given the durations of the entries.\<close>

fun long_tasks :: "sink \<Rightarrow> real list \<Rightarrow> analytics \<Rightarrow> outcome" where
  "long_tasks sink [] w = Inr w"
| "long_tasks sink (duration # rest) w =
     (if 50 < duration
      then (case trackEvent sink ''long_task'' ''Performance'' ''Task Duration''
                   (Some (Math_round (Fin duration))) w of
              Inl e \<Rightarrow> Inl e
            | Inr w1 \<Rightarrow> long_tasks sink rest w1)
      else long_tasks sink rest w)"

text \<open>The two listeners of \<^verbatim>\<open>setupErrorTracking\<close>, given the message or the reason.\<close>

definition error_event :: "sink \<Rightarrow> string \<Rightarrow> analytics \<Rightarrow> outcome" where
  "error_event sink message w =
     trackEvent sink ''javascript_error'' ''Error'' message (Some (Fin 1)) w"

definition unhandledrejection :: "sink \<Rightarrow> string \<Rightarrow> analytics \<Rightarrow> outcome" where
  "unhandledrejection sink reason w =
     trackEvent sink ''promise_rejection'' ''Error'' reason (Some (Fin 1)) w"

text \<open>The \<^verbatim>\<open>beforeunload\<close> listener of \<^verbatim>\<open>trackPageExit\<close>.\<close>

definition trackPageExit :: "sink \<Rightarrow> instant \<Rightarrow> analytics \<Rightarrow> outcome" where
  "trackPageExit sink now w =
     (let duration = of_int (date_now now) - startTime w in
      trackEvent sink ''session_duration'' ''User Behavior'' ''Time on Site''
        (Some (Math_round (Fin (duration / 1000)))) w)"

section \<open>A session\<close>

text \<open>
  What can happen to a tracker after its construction, each with what the listener reads
  from the browser. A session is a list of these.
\<close>

datatype event =
  Load instant performance_api
| NavClick instant "string option"
| SocialClick instant string
| ProjectClick instant string "string option"
| CtaClick instant string
| ThemeClick instant "string option"
| Scroll real int int
| ScrollTimeout
| Intersections instant "intersection_entry list"
| MemorySample memory
| LongTasks "real list"
| ErrorEvent string
| UnhandledRejection string
| Conversion string "jsnum option"
| BeforeUnload instant

fun dispatch :: "sink \<Rightarrow> event \<Rightarrow> analytics \<Rightarrow> outcome" where
  "dispatch sink (Load now p) w = trackPageLoad sink now p w"
| "dispatch sink (NavClick now href) w = nav_click sink now href w"
| "dispatch sink (SocialClick now href) w = social_click sink now href w"
| "dispatch sink (ProjectClick now textContent title) w = project_click sink now textContent title w"
| "dispatch sink (CtaClick now textContent) w = cta_click sink now textContent w"
| "dispatch sink (ThemeClick now data_theme) w = theme_click sink now data_theme w"
| "dispatch sink (Scroll scrollY scrollHeight innerHeight) w =
     Inr (scroll scrollY scrollHeight innerHeight w)"
| "dispatch sink ScrollTimeout w = scroll_timeout sink w"
| "dispatch sink (Intersections now entries) w = section_entries sink now entries w"
| "dispatch sink (MemorySample m) w = memory_sample sink m w"
| "dispatch sink (LongTasks durations) w = long_tasks sink durations w"
| "dispatch sink (ErrorEvent message) w = error_event sink message w"
| "dispatch sink (UnhandledRejection reason) w = unhandledrejection sink reason w"
| "dispatch sink (Conversion type v) w = trackConversion sink type v w"
| "dispatch sink (BeforeUnload now) w = trackPageExit sink now w"

text \<open>
  An exception that a listener lets through ends that listener only: the page goes on,
  and the next event finds the state reached at the throw. \<open>session\<close> is the state after
  all the events; \<open>run\<close> is the session up to the first such exception, \<open>Inr\<close> when no
  listener throws.
\<close>

fun reached :: "outcome \<Rightarrow> analytics" where
  "reached (Inl (e, w)) = w"
| "reached (Inr w) = w"

fun session :: "sink \<Rightarrow> event list \<Rightarrow> analytics \<Rightarrow> analytics" where
  "session sink [] w = w"
| "session sink (ev # evs) w = session sink evs (reached (dispatch sink ev w))"

fun run :: "sink \<Rightarrow> event list \<Rightarrow> analytics \<Rightarrow> outcome" where
  "run sink [] w = Inr w"
| "run sink (ev # evs) w =
     (case dispatch sink ev w of
        Inl e \<Rightarrow> Inl e
      | Inr w1 \<Rightarrow> run sink evs w1)"

section \<open>The contact form\<close>

text \<open>
  The form of \<^verbatim>\<open>initContactForm\<close>: its inputs in document order, the submit button with
  its two labels, and the two messages. A \<^verbatim>\<open>classList\<close> is the set of its class names.
  The phone field, when the document has one, is one of the inputs.
\<close>

record form_field =
  field_id :: string
  field_name :: string
  field_type :: string
  field_required :: bool
  field_value :: string
  field_default :: string
  field_classes :: "string set"

record contact_form =
  formInputs :: "form_field list"
  submitBtn_disabled :: bool
  btnText :: "string set"
  btnLoading :: "string set"
  successMessage :: "string set"
  errorMessage :: "string set"

text \<open>The two regular expressions of \<^verbatim>\<open>validateForm\<close>, as the tests they decide.\<close>

record patterns =
  emailRegex_test :: "string \<Rightarrow> bool"
  phoneRegex_test :: "string \<Rightarrow> bool"

text \<open>The body of the \<^verbatim>\<open>forEach\<close> over the required fields: the verdict and the field.\<close>

definition validate_required :: "patterns \<Rightarrow> form_field \<Rightarrow> bool \<times> form_field" where
  "validate_required pats field0 =
     (let v = trim (field_value field0);
          field = field0\<lparr>field_classes := field_classes field0 - {''is-valid'', ''is-invalid''}\<rparr>;
          invalid = (False, field\<lparr>field_classes := insert ''is-invalid'' (field_classes field)\<rparr>);
          valid = (True, field\<lparr>field_classes := insert ''is-valid'' (field_classes field)\<rparr>)
      in if v = [] then invalid
         else if field_type field = ''email''
         then (if \<not> emailRegex_test pats v then invalid else valid)
         else if field_name field = ''firstName'' \<or> field_name field = ''lastName''
         then (if length v < 2 then invalid else valid)
         else if field_name field = ''message''
         then (if length v < 10 then invalid else valid)
         else valid)"

fun validate_fields :: "patterns \<Rightarrow> form_field list \<Rightarrow> bool \<times> form_field list" where
  "validate_fields pats [] = (True, [])"
| "validate_fields pats (field # rest) =
     (let (ok, field1) = (if field_required field then validate_required pats field
                          else (True, field));
          (isValid, rest1) = validate_fields pats rest
      in (ok \<and> isValid, field1 # rest1))"

text \<open>The check of the optional phone field, on the first input whose id is \<^verbatim>\<open>phone\<close>.\<close>

definition strip_phone :: "string \<Rightarrow> string" where
  "strip_phone s = filter (\<lambda>c. \<not> is_space c \<and> c \<notin> set ''-()'') s"

fun validate_phone :: "patterns \<Rightarrow> form_field list \<Rightarrow> bool \<times> form_field list" where
  "validate_phone pats [] = (True, [])"
| "validate_phone pats (field # rest) =
     (if field_id field = ''phone''
      then (if trim (field_value field) \<noteq> []
            then (if \<not> phoneRegex_test pats (strip_phone (trim (field_value field)))
                  then (False, field\<lparr>field_classes :=
                                 insert ''is-invalid'' (field_classes field)\<rparr> # rest)
                  else (True, field\<lparr>field_classes :=
                                 insert ''is-valid'' (field_classes field)\<rparr> # rest))
            else (True, field # rest))
      else (let (ok, rest1) = validate_phone pats rest in (ok, field # rest1)))"

definition validateForm :: "patterns \<Rightarrow> contact_form \<Rightarrow> bool \<times> contact_form" where
  "validateForm pats ui =
     (let (isValid, fields1) = validate_fields pats (formInputs ui);
          (phoneValid, fields2) = validate_phone pats fields1
      in (isValid \<and> phoneValid, ui\<lparr>formInputs := fields2\<rparr>))"

text \<open>
  \<^verbatim>\<open>simulateFormSubmission\<close>, given the value that \<^verbatim>\<open>Math.random()\<close> returns when the
  two seconds are over: the promise resolves, or rejects with an error.
\<close>

definition simulateFormSubmission :: "real \<Rightarrow> js_error + unit" where
  "simulateFormSubmission random =
     (if 1 / 10 < random then Inr () else Inl (Thrown ''Simulated network error''))"

text \<open>
  The submit listener, from the event to the end of its \<^verbatim>\<open>finally\<close> block; what happens
  on the page while the promise is pending is not modelled. The \<^verbatim>\<open>try\<close> block first:
\<close>

definition submit_try :: "real \<Rightarrow> contact_form \<Rightarrow> js_error + contact_form" where
  "submit_try random ui =
     (case simulateFormSubmission random of
        Inl e \<Rightarrow> Inl e
      | Inr response \<Rightarrow>
          Inr (ui\<lparr>successMessage := successMessage ui - {''d-none''},
                  formInputs := map (\<lambda>input. input\<lparr>field_value := field_default input,
                                     field_classes := field_classes input
                                                        - {''is-valid'', ''is-invalid''}\<rparr>)
                                (formInputs ui)\<rparr>))"

definition submit :: "patterns \<Rightarrow> real \<Rightarrow> contact_form \<Rightarrow> contact_form" where
  "submit pats random ui0 =
     (let ui1 = ui0\<lparr>successMessage := insert ''d-none'' (successMessage ui0),
                    errorMessage := insert ''d-none'' (errorMessage ui0)\<rparr>;
          (isValid, ui2) = validateForm pats ui1
      in if \<not> isValid then ui2
         else let ui3 = ui2\<lparr>submitBtn_disabled := True,
                            btnText := insert ''d-none'' (btnText ui2),
                            btnLoading := btnLoading ui2 - {''d-none''}\<rparr>;
                  ui4 = (case submit_try random ui3 of
                           Inr ui \<Rightarrow> ui
                         | Inl error \<Rightarrow> ui3\<lparr>errorMessage := errorMessage ui3 - {''d-none''}\<rparr>)
              in ui4\<lparr>submitBtn_disabled := False,
                     btnText := btnText ui4 - {''d-none''},
                     btnLoading := insert ''d-none'' (btnLoading ui4)\<rparr>)"

section \<open>What a session leaves behind\<close>

text \<open>The tracker's own state: everything but what the sink has received.\<close>

definition tracker :: "analytics \<Rightarrow> analytics" where
  "tracker w = w\<lparr>delivered := []\<rparr>"

text \<open>The events whose listener pushes on \<^verbatim>\<open>this.interactions\<close> each time it runs.\<close>

fun is_click :: "event \<Rightarrow> bool" where
  "is_click (NavClick now href) = True"
| "is_click (SocialClick now href) = True"
| "is_click (ProjectClick now textContent title) = True"
| "is_click (CtaClick now textContent) = True"
| "is_click (ThemeClick now data_theme) = True"
| "is_click ev = False"

text \<open>
  The section ids that an observer callback sees more than half visible, in order, and
  those of any event.
\<close>

definition visible :: "intersection_entry list \<Rightarrow> string list" where
  "visible entries =
     map target_id (filter (\<lambda>entry. isIntersecting entry \<and> 1 / 2 < intersectionRatio entry) entries)"

fun observed :: "event \<Rightarrow> string list" where
  "observed (Intersections now entries) = visible entries"
| "observed ev = []"

text \<open>
  The call that the observer callback makes for a section id, and whether the sink lets
  a call pass: it is absent, or \<^verbatim>\<open>gtag\<close> returns from it.
\<close>

definition view_call :: "string \<Rightarrow> gtag_call" where
  "view_call sectionId =
     \<lparr>action = ''section_view'', event_category = ''User Behavior'',
      event_label = sectionId, event_value = None\<rparr>"

fun returns :: "sink \<Rightarrow> gtag_call \<Rightarrow> bool" where
  "returns None c = True"
| "returns (Some g) c = (g c = None)"


text \<open>
  A scroll event whose divisor \<^verbatim>\<open>document.body.scrollHeight - window.innerHeight\<close> is not
  0, and one whose offset lies between 0 and that divisor.
\<close>

fun divisor_nonzero :: "event \<Rightarrow> bool" where
  "divisor_nonzero (Scroll scrollY scrollHeight innerHeight) = (scrollHeight \<noteq> innerHeight)"
| "divisor_nonzero ev = True"

fun within_page :: "event \<Rightarrow> bool" where
  "within_page (Scroll scrollY scrollHeight innerHeight) =
     (0 \<le> scrollY \<and> scrollY \<le> of_int (scrollHeight - innerHeight))"
| "within_page ev = True"

section \<open>Properties\<close>

subsection \<open>The summary and conversions\<close>

lemma sum_bump: "sum_list (map snd (bump t kvs)) = Suc (sum_list (map snd kvs))"
  by (induction kvs) auto

lemma keys_bump:
  "map fst (bump t kvs) = (if t \<in> set (map fst kvs) then map fst kvs else map fst kvs @ [t])"
  by (induction kvs) (auto simp: rev_image_eqI)

lemma distinct_bump: "distinct (map fst kvs) \<Longrightarrow> distinct (map fst (bump t kvs))"
  by (simp add: keys_bump)

lemma sum_foldl_bump:
  "sum_list (map snd (foldl (\<lambda>summary i. bump (itype i) summary) acc xs))
     = sum_list (map snd acc) + length xs"
  by (induction xs arbitrary: acc) (simp_all add: sum_bump)

lemma distinct_foldl_bump:
  "distinct (map fst acc) \<Longrightarrow>
   distinct (map fst (foldl (\<lambda>summary i. bump (itype i) summary) acc xs))"
  by (induction xs arbitrary: acc) (simp_all add: distinct_bump)

text \<open>
  C10: in the summary, the counts of \<open>interactionTypes\<close> add up to \<open>totalInteractions\<close>,
  whatever the log holds; each type has one count.
\<close>

theorem interactionTypes_sum:
  "sum_list (map snd (interactionTypes (getAnalyticsSummary now w)))
     = totalInteractions (getAnalyticsSummary now w)
   \<and> distinct (map fst (interactionTypes (getAnalyticsSummary now w)))"
  by (simp add: getAnalyticsSummary_def getInteractionSummary_def sum_foldl_bump
        distinct_foldl_bump)

lemma trackEvent_absent: "trackEvent None act category label v w = Inr w"
  by (simp add: trackEvent_def)

lemma trackEvent_returns:
  "g \<lparr>action = act, event_category = category, event_label = label, event_value = v\<rparr> = None \<Longrightarrow>
   trackEvent (Some g) act category label v w
     = Inr (w\<lparr>delivered := delivered w @
          [\<lparr>action = act, event_category = category, event_label = label, event_value = v\<rparr>]\<rparr>)"
  by (simp add: trackEvent_def)

text \<open>
  C5: with a sink that returns, \<^verbatim>\<open>trackConversion('resume_download', 1)\<close> sends exactly two
  events, the generic conversion event and the \<^verbatim>\<open>resume_download\<close> event with value 1, and
  a kind outside the three recognised ones sends the generic conversion event only. The
  tracker's own fields, the log among them, stay as they were.
\<close>

theorem trackConversion_events:
  assumes "\<forall>c. g c = None"
  shows "trackConversion (Some g) ''resume_download'' (Some (Fin 1)) w
           = Inr (w\<lparr>delivered := delivered w @
               [\<lparr>action = ''conversion'', event_category = ''Conversion'',
                 event_label = ''resume_download'', event_value = Some (Fin 1)\<rparr>,
                \<lparr>action = ''resume_download'', event_category = ''Lead Generation'',
                 event_label = ''Resume Download'', event_value = Some (Fin 1)\<rparr>]\<rparr>)
         \<and> (type \<notin> {''contact_attempt'', ''project_engagement'', ''resume_download''} \<longrightarrow>
              trackConversion (Some g) type v w
                = Inr (w\<lparr>delivered := delivered w @
                    [\<lparr>action = ''conversion'', event_category = ''Conversion'',
                      event_label = type, event_value = v\<rparr>]\<rparr>))"
  using assms by (simp add: trackConversion_def trackEvent_returns)


theorem trackConversion_events_witness:
  "(\<forall>c. (\<lambda>c. None :: js_error option) (c :: gtag_call) = None)
   \<and> trackConversion (Some (\<lambda>c. None)) ''resume_download'' (Some (Fin 1))
         (constructor \<lparr>perf_now = 40, date_now = 1700000000000\<rparr>)
       = Inr ((constructor \<lparr>perf_now = 40, date_now = 1700000000000\<rparr>)\<lparr>delivered :=
           [\<lparr>action = ''conversion'', event_category = ''Conversion'',
             event_label = ''resume_download'', event_value = Some (Fin 1)\<rparr>,
            \<lparr>action = ''resume_download'', event_category = ''Lead Generation'',
             event_label = ''Resume Download'', event_value = Some (Fin 1)\<rparr>]\<rparr>)
   \<and> ''newsletter'' \<notin> {''contact_attempt'', ''project_engagement'', ''resume_download''}
   \<and> trackConversion (Some (\<lambda>c. None)) ''newsletter'' (Some (Fin 5))
         (constructor \<lparr>perf_now = 40, date_now = 1700000000000\<rparr>)
       = Inr ((constructor \<lparr>perf_now = 40, date_now = 1700000000000\<rparr>)\<lparr>delivered :=
           [\<lparr>action = ''conversion'', event_category = ''Conversion'',
             event_label = ''newsletter'', event_value = Some (Fin 5)\<rparr>]\<rparr>)"
  using trackConversion_events [of "\<lambda>c. None" "constructor \<lparr>perf_now = 40, date_now = 1700000000000\<rparr>"
          "''newsletter''" "Some (Fin 5)"]
  by (simp add: constructor_def)

subsection \<open>The contact form, page load, scroll depth and the clocks\<close>

lemma validateForm_frame:
  "validateForm pats ui = (ok, ui') \<Longrightarrow>
   submitBtn_disabled ui' = submitBtn_disabled ui \<and> btnText ui' = btnText ui
   \<and> btnLoading ui' = btnLoading ui \<and> successMessage ui' = successMessage ui
   \<and> errorMessage ui' = errorMessage ui"
  by (auto simp: validateForm_def split: prod.splits)

text \<open>
  C9: once the form has passed validation and the submission is attempted, the submit
  button ends enabled, with its text shown and its loading indicator hidden, whatever
  the simulated promise does; when the promise rejects, the error message is shown and
  the success message stays hidden.
\<close>

theorem submit_failure_restores_button:
  assumes "fst (validateForm pats
             (ui\<lparr>successMessage := insert ''d-none'' (successMessage ui),
                 errorMessage := insert ''d-none'' (errorMessage ui)\<rparr>))"
  shows "\<not> submitBtn_disabled (submit pats random ui)
         \<and> ''d-none'' \<notin> btnText (submit pats random ui)
         \<and> ''d-none'' \<in> btnLoading (submit pats random ui)
         \<and> (random \<le> 1 / 10 \<longrightarrow>
               ''d-none'' \<notin> errorMessage (submit pats random ui)
               \<and> ''d-none'' \<in> successMessage (submit pats random ui))"
proof -
  let ?ui1 = "ui\<lparr>successMessage := insert ''d-none'' (successMessage ui),
                 errorMessage := insert ''d-none'' (errorMessage ui)\<rparr>"
  obtain ui2 where v: "validateForm pats ?ui1 = (True, ui2)"
    using assms by (cases "validateForm pats ?ui1") auto
  note fr = validateForm_frame [OF v]
  show ?thesis
    using fr by (simp add: submit_def v submit_try_def simulateFormSubmission_def Let_def)
qed

lemma send_metrics_returns:
  "\<forall>c. g c = None \<Longrightarrow>
   send_metrics (Some g) ms w
     = Inr (w\<lparr>delivered := delivered w @
          map (\<lambda>(metric, v). \<lparr>action = metric, event_category = ''Performance'',
                               event_label = metric, event_value = Some v\<rparr>)
            (filter (\<lambda>(metric, v). js_less (Fin 0) v) ms)\<rparr>)"
proof (induction ms arbitrary: w)
  case Nil
  then show ?case by simp
next
  case (Cons a ms)
  obtain metric v where a: "a = (metric, v)" by (cases a)
  show ?case using Cons by (simp add: a trackEvent_def)
qed

text \<open>
  C7: at the load event, with navigation timing available and a sink that returns, the
  four metrics are captured, and after the load time exactly the metrics whose value is
  above 0 are sent, in their order. With \<^verbatim>\<open>domContentLoadedEventStart\<close> 1000 and
  \<^verbatim>\<open>domContentLoadedEventEnd\<close> 1200 the metric is 200 and is sent; a metric of 0 is not.
\<close>

theorem trackPageLoad_reports_positive:
  assumes "\<forall>c. g c = None"
    and "has_getEntriesByType p"
    and "navigation_entries p = navTiming # others"
  shows "let metrics =
               [(''domContentLoaded'',
                   Math_round (Fin (domContentLoadedEventEnd navTiming
                                     - domContentLoadedEventStart navTiming))),
                (''loadComplete'',
                   Math_round (Fin (loadEventEnd navTiming - loadEventStart navTiming))),
                (''firstPaint'', getFirstPaint p),
                (''firstContentfulPaint'', getFirstContentfulPaint p)]
         in trackPageLoad (Some g) now p w
              = Inr (w\<lparr>performanceMetrics := metrics,
                      delivered := delivered w @
                        \<lparr>action = ''page_load_time'', event_category = ''Performance'',
                          event_label = ''Load Time'',
                          event_value = Some (Math_round (Fin (perf_now now - startTime w)))\<rparr>
                        # map (\<lambda>(metric, v). \<lparr>action = metric, event_category = ''Performance'',
                                               event_label = metric, event_value = Some v\<rparr>)
                            (filter (\<lambda>(metric, v). js_less (Fin 0) v) metrics)\<rparr>)"
  using assms
  by (simp add: trackPageLoad_def trackEvent_def send_metrics_returns Let_def del: send_metrics.simps)

theorem submit_failure_restores_button_witness:
  "fst (validateForm \<lparr>emailRegex_test = (\<lambda>s. CHR ''@'' \<in> set s), phoneRegex_test = (\<lambda>s. True)\<rparr>
         (\<lparr>formInputs = [\<lparr>field_id = ''email'', field_name = ''email'', field_type = ''email'',
                           field_required = True, field_value = ''a@b.c'', field_default = [],
                           field_classes = {}\<rparr>],
           submitBtn_disabled = False, btnText = {}, btnLoading = {''d-none''},
           successMessage = {''d-none''}, errorMessage = {''d-none''}\<rparr>
          \<lparr>successMessage := insert ''d-none'' {''d-none''},
           errorMessage := insert ''d-none'' {''d-none''}\<rparr>))
   \<and> \<not> submitBtn_disabled
         (submit \<lparr>emailRegex_test = (\<lambda>s. CHR ''@'' \<in> set s), phoneRegex_test = (\<lambda>s. True)\<rparr> (1 / 20)
            \<lparr>formInputs = [\<lparr>field_id = ''email'', field_name = ''email'', field_type = ''email'',
                             field_required = True, field_value = ''a@b.c'', field_default = [],
                             field_classes = {}\<rparr>],
             submitBtn_disabled = False, btnText = {}, btnLoading = {''d-none''},
             successMessage = {''d-none''}, errorMessage = {''d-none''}\<rparr>)
   \<and> (1 / 20 :: real) \<le> 1 / 10
   \<and> ''d-none'' \<notin> errorMessage
         (submit \<lparr>emailRegex_test = (\<lambda>s. CHR ''@'' \<in> set s), phoneRegex_test = (\<lambda>s. True)\<rparr> (1 / 20)
            \<lparr>formInputs = [\<lparr>field_id = ''email'', field_name = ''email'', field_type = ''email'',
                             field_required = True, field_value = ''a@b.c'', field_default = [],
                             field_classes = {}\<rparr>],
             submitBtn_disabled = False, btnText = {}, btnLoading = {''d-none''},
             successMessage = {''d-none''}, errorMessage = {''d-none''}\<rparr>)"
proof -
  have h: "fst (validateForm \<lparr>emailRegex_test = (\<lambda>s. CHR ''@'' \<in> set s), phoneRegex_test = (\<lambda>s. True)\<rparr>
         (\<lparr>formInputs = [\<lparr>field_id = ''email'', field_name = ''email'', field_type = ''email'',
                           field_required = True, field_value = ''a@b.c'', field_default = [],
                           field_classes = {}\<rparr>],
           submitBtn_disabled = False, btnText = {}, btnLoading = {''d-none''},
           successMessage = {''d-none''}, errorMessage = {''d-none''}\<rparr>
          \<lparr>successMessage := insert ''d-none'' (successMessage \<lparr>formInputs = [\<lparr>field_id = ''email'', field_name = ''email'', field_type = ''email'',
                           field_required = True, field_value = ''a@b.c'', field_default = [],
                           field_classes = {}\<rparr>],
           submitBtn_disabled = False, btnText = {}, btnLoading = {''d-none''},
           successMessage = {''d-none''}, errorMessage = {''d-none''}\<rparr>),
           errorMessage := insert ''d-none'' (errorMessage \<lparr>formInputs = [\<lparr>field_id = ''email'', field_name = ''email'', field_type = ''email'',
                           field_required = True, field_value = ''a@b.c'', field_default = [],
                           field_classes = {}\<rparr>],
           submitBtn_disabled = False, btnText = {}, btnLoading = {''d-none''},
           successMessage = {''d-none''}, errorMessage = {''d-none''}\<rparr>)\<rparr>))"
    by (simp add: validateForm_def validate_required_def trim_def is_space_def Let_def)
  show ?thesis
    using h submit_failure_restores_button [OF h, of "1 / 20"] by simp
qed

theorem trackPageLoad_reports_positive_witness:
  "(\<forall>c. (\<lambda>c. None :: js_error option) (c :: gtag_call) = None)
   \<and> has_getEntriesByType
        \<lparr>has_getEntriesByType = True,
         navigation_entries = [\<lparr>domContentLoadedEventStart = 1000, domContentLoadedEventEnd = 1200,
                                loadEventStart = 1500, loadEventEnd = 1500\<rparr>],
         paint_entries = [(''first-paint'', 3504 / 10)]\<rparr>
   \<and> trackPageLoad (Some (\<lambda>c. None)) \<lparr>perf_now = 1600, date_now = 1700000001600\<rparr>
        \<lparr>has_getEntriesByType = True,
         navigation_entries = [\<lparr>domContentLoadedEventStart = 1000, domContentLoadedEventEnd = 1200,
                                loadEventStart = 1500, loadEventEnd = 1500\<rparr>],
         paint_entries = [(''first-paint'', 3504 / 10)]\<rparr>
        (constructor \<lparr>perf_now = 40, date_now = 1700000000040\<rparr>)
       = Inr ((constructor \<lparr>perf_now = 40, date_now = 1700000000040\<rparr>)
               \<lparr>performanceMetrics :=
                  [(''domContentLoaded'', Fin 200), (''loadComplete'', Fin 0),
                   (''firstPaint'', Fin 350), (''firstContentfulPaint'', Fin 0)],
                delivered :=
                  [\<lparr>action = ''page_load_time'', event_category = ''Performance'',
                    event_label = ''Load Time'', event_value = Some (Fin 1560)\<rparr>,
                   \<lparr>action = ''domContentLoaded'', event_category = ''Performance'',
                    event_label = ''domContentLoaded'', event_value = Some (Fin 200)\<rparr>,
                   \<lparr>action = ''firstPaint'', event_category = ''Performance'',
                    event_label = ''firstPaint'', event_value = Some (Fin 350)\<rparr>]\<rparr>)"
  using trackPageLoad_reports_positive [of "\<lambda>c. None"
      "\<lparr>has_getEntriesByType = True,
         navigation_entries = [\<lparr>domContentLoadedEventStart = 1000, domContentLoadedEventEnd = 1200,
                                loadEventStart = 1500, loadEventEnd = 1500\<rparr>],
         paint_entries = [(''first-paint'', 3504 / 10)]\<rparr>"
      "\<lparr>domContentLoadedEventStart = 1000, domContentLoadedEventEnd = 1200,
                                loadEventStart = 1500, loadEventEnd = 1500\<rparr>" "[]"
      "\<lparr>perf_now = 1600, date_now = 1700000001600\<rparr>"
      "constructor \<lparr>perf_now = 40, date_now = 1700000000040\<rparr>"]
  by (simp add: constructor_def getFirstPaint_def getFirstContentfulPaint_def round_half_up_def)

text \<open>
  C3: when \<^verbatim>\<open>document.body.scrollHeight\<close> equals \<^verbatim>\<open>window.innerHeight\<close> the divisor is
  0 and nothing guards it: at scroll offset 0 the percentage is NaN, at a positive offset
  it is Infinity, and that is the value the \<^verbatim>\<open>scroll_depth\<close> event carries.
\<close>

theorem scroll_depth_division_by_zero:
  "scrollPercent 0 800 800 = NaN
   \<and> run (Some (\<lambda>c. None)) [Scroll 0 800 800, ScrollTimeout]
        (constructor \<lparr>perf_now = 40, date_now = 1700000000040\<rparr>)
       = Inr ((constructor \<lparr>perf_now = 40, date_now = 1700000000040\<rparr>)
               \<lparr>maxScroll := NaN,
                delivered := [\<lparr>action = ''scroll_depth'', event_category = ''User Behavior'',
                               event_label = ''Max Scroll Percentage'',
                               event_value = Some NaN\<rparr>]\<rparr>)
   \<and> scrollPercent 120 800 800 = PosInf
   \<and> run (Some (\<lambda>c. None)) [Scroll 120 800 800, ScrollTimeout]
        (constructor \<lparr>perf_now = 40, date_now = 1700000000040\<rparr>)
       = Inr ((constructor \<lparr>perf_now = 40, date_now = 1700000000040\<rparr>)
               \<lparr>maxScroll := PosInf,
                delivered := [\<lparr>action = ''scroll_depth'', event_category = ''User Behavior'',
                               event_label = ''Max Scroll Percentage'',
                               event_value = Some PosInf\<rparr>]\<rparr>)"
  by (simp add: scrollPercent_def js_div_def scroll_def scroll_timeout_def trackEvent_def
        constructor_def)

text \<open>
  C8: the tracker is constructed when \<^verbatim>\<open>performance.now()\<close> reads 50 and is queried
  1000 ms later. \<open>sessionDuration\<close> is \<^verbatim>\<open>Date.now()\<close> at the query minus
  \<^verbatim>\<open>performance.now()\<close> at construction, 1700000001000, and not the 1000 ms that passed
  on either clock.
\<close>

theorem sessionDuration_mixes_clocks:
  "sessionDuration (getAnalyticsSummary \<lparr>perf_now = 1050, date_now = 1700000001050\<rparr>
                      (constructor \<lparr>perf_now = 50, date_now = 1700000000050\<rparr>))
     = 1700000001000
   \<and> real_of_int (date_now \<lparr>perf_now = 1050, date_now = 1700000001050\<rparr>
                    - date_now \<lparr>perf_now = 50, date_now = 1700000000050\<rparr>) = 1000
   \<and> perf_now \<lparr>perf_now = 1050, date_now = 1700000001050\<rparr>
       - perf_now \<lparr>perf_now = 50, date_now = 1700000000050\<rparr> = 1000"
  by (simp add: getAnalyticsSummary_def constructor_def)

text \<open>
  C4, as stated, fails: nothing clamps the percentage. A scroll offset of 1000 on a body
  500 higher than the viewport gives a running maximum of 200.
\<close>

theorem maxScroll_exceeds_100:
  "maxScroll (scroll 1000 1300 800 (constructor \<lparr>perf_now = 40, date_now = 1700000000040\<rparr>))
     = Fin 200
   \<and> \<not> js_le (maxScroll (scroll 1000 1300 800
                   (constructor \<lparr>perf_now = 40, date_now = 1700000000040\<rparr>))) (Fin 100)"
  by (simp add: scroll_def scrollPercent_def js_div_def constructor_def round_half_up_def)

text \<open>
  C1, as stated, fails: \<^verbatim>\<open>trackConversion\<close> sends its two events to the sink and pushes
  nothing on the log, so the summary counts 0 interactions after two tracked events.
\<close>

theorem totalInteractions_misses_conversions:
  "run (Some (\<lambda>c. None)) [Conversion ''resume_download'' (Some (Fin 1))]
     (constructor \<lparr>perf_now = 40, date_now = 1700000000040\<rparr>)
     = Inr ((constructor \<lparr>perf_now = 40, date_now = 1700000000040\<rparr>)
             \<lparr>delivered :=
               [\<lparr>action = ''conversion'', event_category = ''Conversion'',
                 event_label = ''resume_download'', event_value = Some (Fin 1)\<rparr>,
                \<lparr>action = ''resume_download'', event_category = ''Lead Generation'',
                 event_label = ''Resume Download'', event_value = Some (Fin 1)\<rparr>]\<rparr>)
   \<and> length (delivered
        ((constructor \<lparr>perf_now = 40, date_now = 1700000000040\<rparr>)
             \<lparr>delivered :=
               [\<lparr>action = ''conversion'', event_category = ''Conversion'',
                 event_label = ''resume_download'', event_value = Some (Fin 1)\<rparr>,
                \<lparr>action = ''resume_download'', event_category = ''Lead Generation'',
                 event_label = ''Resume Download'', event_value = Some (Fin 1)\<rparr>]\<rparr>)) = 2
   \<and> totalInteractions (getAnalyticsSummary \<lparr>perf_now = 90, date_now = 1700000000090\<rparr>
        ((constructor \<lparr>perf_now = 40, date_now = 1700000000040\<rparr>)
             \<lparr>delivered :=
               [\<lparr>action = ''conversion'', event_category = ''Conversion'',
                 event_label = ''resume_download'', event_value = Some (Fin 1)\<rparr>,
                \<lparr>action = ''resume_download'', event_category = ''Lead Generation'',
                 event_label = ''Resume Download'', event_value = Some (Fin 1)\<rparr>]\<rparr>)) = 0"
  by (simp add: trackConversion_def trackEvent_def constructor_def getAnalyticsSummary_def)

subsection \<open>Sessions\<close>

lemma tracker_eq:
  "tracker a = tracker b \<longleftrightarrow>
     startTime a = startTime b \<and> interactions a = interactions b
     \<and> performanceMetrics a = performanceMetrics b \<and> maxScroll a = maxScroll b
     \<and> scrollTimeout a = scrollTimeout b \<and> sectionViews a = sectionViews b
     \<and> analytics.more a = analytics.more b"
  by (cases a, cases b) (auto simp: tracker_def)

lemma trackEvent_Inr:
  "trackEvent sink act category label v w = Inr w' \<Longrightarrow> tracker w' = tracker w"
  by (cases sink) (auto simp: trackEvent_def tracker_def split: option.splits)

lemma send_metrics_Inr:
  "send_metrics sink ms w = Inr w' \<Longrightarrow> tracker w' = tracker w"
proof (induction ms arbitrary: w)
  case Nil
  then show ?case by simp
next
  case (Cons a ms)
  obtain metric v where a: "a = (metric, v)" by (cases a)
  show ?case
  proof (cases "js_less (Fin 0) v")
    case True
    with Cons.prems a obtain w1 where
      t: "trackEvent sink metric ''Performance'' metric (Some v) w = Inr w1"
      and r: "send_metrics sink ms w1 = Inr w'"
      by (auto split: sum.splits)
    from Cons.IH [OF r] trackEvent_Inr [OF t] show ?thesis by simp
  next
    case False
    with Cons.prems a have "send_metrics sink ms w = Inr w'" by simp
    then show ?thesis by (rule Cons.IH)
  qed
qed

lemma long_tasks_Inr:
  "long_tasks sink ds w = Inr w' \<Longrightarrow> tracker w' = tracker w"
proof (induction ds arbitrary: w)
  case Nil
  then show ?case by simp
next
  case (Cons a ds)
  show ?case
  proof (cases "50 < a")
    case True
    with Cons.prems obtain w1 where
      t: "trackEvent sink ''long_task'' ''Performance'' ''Task Duration''
            (Some (Math_round (Fin a))) w = Inr w1"
      and r: "long_tasks sink ds w1 = Inr w'"
      by (auto split: sum.splits)
    from Cons.IH [OF r] trackEvent_Inr [OF t] show ?thesis by simp
  next
    case False
    with Cons.prems have "long_tasks sink ds w = Inr w'" by simp
    then show ?thesis by (rule Cons.IH)
  qed
qed

lemma trackConversion_Inr:
  "trackConversion sink type v w = Inr w' \<Longrightarrow> tracker w' = tracker w"
  by (auto simp: trackConversion_def split: sum.splits if_splits dest!: trackEvent_Inr)

lemma trackPageLoad_Inr:
  "trackPageLoad sink now p w = Inr w' \<Longrightarrow>
   tracker w' = tracker (w\<lparr>performanceMetrics := performanceMetrics w'\<rparr>)"
  by (auto simp: trackPageLoad_def Let_def tracker_eq split: sum.splits if_splits list.splits
      dest!: trackEvent_Inr send_metrics_Inr simp del: send_metrics.simps)

lemma scroll_timeout_Inr:
  "scroll_timeout sink w = Inr w' \<Longrightarrow>
   tracker w' = tracker (w\<lparr>scrollTimeout := False\<rparr>)"
  by (auto simp: scroll_timeout_def tracker_eq split: if_splits dest!: trackEvent_Inr)

lemma memory_sample_Inr:
  "memory_sample sink m w = Inr w' \<Longrightarrow> tracker w' = tracker w"
  by (auto simp: memory_sample_def Let_def split: if_splits dest!: trackEvent_Inr)

lemma trackPageExit_Inr:
  "trackPageExit sink now w = Inr w' \<Longrightarrow> tracker w' = tracker w"
  by (auto simp: trackPageExit_def Let_def dest!: trackEvent_Inr)

lemma click_Inr:
  "nav_click sink now href w = Inr w' \<Longrightarrow>
     \<exists>i. tracker w' = tracker (w\<lparr>interactions := interactions w @ [i]\<rparr>) \<and> itype i = ''navigation''"
  "social_click sink now url w = Inr w' \<Longrightarrow>
     \<exists>i. tracker w' = tracker (w\<lparr>interactions := interactions w @ [i]\<rparr>) \<and> itype i = ''social''"
  "project_click sink now textContent title w = Inr w' \<Longrightarrow>
     \<exists>i. tracker w' = tracker (w\<lparr>interactions := interactions w @ [i]\<rparr>) \<and> itype i = ''project''"
  "cta_click sink now textContent w = Inr w' \<Longrightarrow>
     \<exists>i. tracker w' = tracker (w\<lparr>interactions := interactions w @ [i]\<rparr>) \<and> itype i = ''cta''"
  "theme_click sink now data_theme w = Inr w' \<Longrightarrow>
     \<exists>i. tracker w' = tracker (w\<lparr>interactions := interactions w @ [i]\<rparr>) \<and> itype i = ''theme''"
  by (auto simp: nav_click_def social_click_def project_click_def cta_click_def theme_click_def
      Let_def tracker_eq split: sum.splits option.splits dest!: trackEvent_Inr)

lemma section_entry_Inr:
  "section_entry sink now e w = Inr w' \<Longrightarrow>
   tracker w' = tracker
     (if isIntersecting e \<and> 1 / 2 < intersectionRatio e \<and> sectionViews w (target_id e) = None
      then w\<lparr>sectionViews := (sectionViews w)(target_id e \<mapsto> date_now now),
             interactions := interactions w @ [SectionView (target_id e) (date_now now)]\<rparr>
      else w)"
  by (auto simp: section_entry_def Let_def tracker_eq split: sum.splits if_splits
      dest!: trackEvent_Inr)


lemma section_entries_frame:
  "section_entries sink now es w = Inr w' \<Longrightarrow>
   startTime w' = startTime w \<and> maxScroll w' = maxScroll w"
proof (induction es arbitrary: w)
  case Nil
  then show ?case by simp
next
  case (Cons e es)
  from Cons.prems obtain w1 where
    h: "section_entry sink now e w = Inr w1" and r: "section_entries sink now es w1 = Inr w'"
    by (auto split: sum.splits)
  from section_entry_Inr [OF h] have "startTime w1 = startTime w \<and> maxScroll w1 = maxScroll w"
    by (simp add: tracker_eq split: if_splits)
  with Cons.IH [OF r] show ?case by simp
qed

lemma section_entries_dom:
  "section_entries sink now es w = Inr w' \<Longrightarrow>
   dom (sectionViews w') = dom (sectionViews w) \<union> set (visible es)"
proof (induction es arbitrary: w)
  case Nil
  then show ?case by (simp add: visible_def)
next
  case (Cons e es)
  from Cons.prems obtain w1 where
    h: "section_entry sink now e w = Inr w1" and r: "section_entries sink now es w1 = Inr w'"
    by (auto split: sum.splits)
  from section_entry_Inr [OF h]
  have "dom (sectionViews w1) = dom (sectionViews w) \<union> set (visible [e])"
    by (auto simp: tracker_eq visible_def split: if_splits)
  moreover have "visible (e # es) = visible [e] @ visible es"
    by (simp add: visible_def)
  ultimately show ?case using Cons.IH [OF r] by auto
qed


lemma card_split:
  assumes "finite A" "finite B"
  shows "card (A \<union> B - D) = card (A - D) + card (B - (D \<union> A))"
proof -
  have "A \<union> B - D = (A - D) \<union> (B - (D \<union> A))" by auto
  moreover have "(A - D) \<inter> (B - (D \<union> A)) = {}" by auto
  ultimately show ?thesis using assms by (simp add: card_Un_disjoint)
qed

lemma card_fresh:
  "m x = None \<Longrightarrow> card ({x} - dom m) = Suc 0"
  "m x = Some y \<Longrightarrow> card ({x} - dom m) = 0"
proof -
  show "m x = None \<Longrightarrow> card ({x} - dom m) = Suc 0"
  proof -
    assume "m x = None"
    then have "{x} - dom m = {x}" by auto
    then show ?thesis by simp
  qed
  show "m x = Some y \<Longrightarrow> card ({x} - dom m) = 0"
  proof -
    assume "m x = Some y"
    then have "{x} - dom m = {}" by auto
    then show ?thesis by simp
  qed
qed

lemma section_entries_length:
  "section_entries sink now es w = Inr w' \<Longrightarrow>
   length (interactions w')
     = length (interactions w) + card (set (visible es) - dom (sectionViews w))"
proof (induction es arbitrary: w)
  case Nil
  then show ?case by (simp add: visible_def)
next
  case (Cons e es)
  from Cons.prems obtain w1 where
    h: "section_entry sink now e w = Inr w1" and r: "section_entries sink now es w1 = Inr w'"
    by (auto split: sum.splits)
  have v: "visible (e # es) = visible [e] @ visible es"
    by (simp add: visible_def)
  from section_entry_Inr [OF h]
  have d: "dom (sectionViews w1) = dom (sectionViews w) \<union> set (visible [e])"
    by (auto simp: tracker_eq visible_def split: if_splits)
  from section_entry_Inr [OF h]
  have l: "length (interactions w1)
     = length (interactions w) + card (set (visible [e]) - dom (sectionViews w))"
    by (auto simp: tracker_eq visible_def card_fresh split: if_splits)
  have "card (set (visible [e]) \<union> set (visible es) - dom (sectionViews w))
      = card (set (visible [e]) - dom (sectionViews w))
        + card (set (visible es) - (dom (sectionViews w) \<union> set (visible [e])))"
    by (rule card_split) simp_all
  with Cons.IH [OF r] d l show ?case by (simp add: v)
qed


lemma dispatch_dom:
  "dispatch sink ev w = Inr w' \<Longrightarrow>
   dom (sectionViews w') = dom (sectionViews w) \<union> set (observed ev)"
  by (cases ev)
     (auto simp: tracker_eq error_event_def unhandledrejection_def scroll_def
        section_entries_dom
        dest!: trackPageLoad_Inr click_Inr scroll_timeout_Inr memory_sample_Inr long_tasks_Inr
          trackEvent_Inr trackConversion_Inr trackPageExit_Inr)

lemma dispatch_length:
  "dispatch sink ev w = Inr w' \<Longrightarrow>
   length (interactions w')
     = length (interactions w) + (if is_click ev then 1 else 0)
       + card (set (observed ev) - dom (sectionViews w))"
  by (cases ev)
     (auto simp: tracker_eq error_event_def unhandledrejection_def scroll_def
        section_entries_length
        dest!: trackPageLoad_Inr click_Inr scroll_timeout_Inr memory_sample_Inr long_tasks_Inr
          trackEvent_Inr trackConversion_Inr trackPageExit_Inr)


lemma run_length:
  "run sink evs w = Inr w' \<Longrightarrow>
   length (interactions w')
     = length (interactions w) + length (filter is_click evs)
       + card (set (concat (map observed evs)) - dom (sectionViews w))"
proof (induction evs arbitrary: w)
  case Nil
  then show ?case by simp
next
  case (Cons ev evs)
  from Cons.prems obtain w1 where
    h: "dispatch sink ev w = Inr w1" and r: "run sink evs w1 = Inr w'"
    by (auto split: sum.splits)
  have "card (set (observed ev) \<union> set (concat (map observed evs)) - dom (sectionViews w))
      = card (set (observed ev) - dom (sectionViews w))
        + card (set (concat (map observed evs)) - (dom (sectionViews w) \<union> set (observed ev)))"
    by (rule card_split) simp_all
  with Cons.IH [OF r] dispatch_length [OF h] dispatch_dom [OF h] show ?case by simp
qed

text \<open>
  C1, amended: in a session that no exception ends, \<open>totalInteractions\<close> is the number
  of clicks (navigation, social, project, call-to-action and theme) plus the number of
  distinct section ids seen more than half visible. Conversions, scroll depth, performance
  and error events add nothing: they go to the sink only.
\<close>

theorem totalInteractions_counts_pushes:
  assumes "run sink evs (constructor c0) = Inr w"
  shows "totalInteractions (getAnalyticsSummary now w)
           = length (filter is_click evs) + length (remdups (concat (map observed evs)))"
proof -
  have "card (set (concat (map observed evs))) = length (remdups (concat (map observed evs)))"
    by (rule card_set)
  with run_length [OF assms] show ?thesis
    by (simp add: getAnalyticsSummary_def constructor_def)
qed

theorem totalInteractions_counts_pushes_witness:
  "map_sum id (\<lambda>w. (length (delivered w), totalInteractions (getAnalyticsSummary \<lparr>perf_now = 300, date_now = 1700000000300\<rparr> w)))
     (run (Some (\<lambda>c. None))
       [NavClick \<lparr>perf_now = 100, date_now = 1700000000100\<rparr> (Some ''#about''),
        Conversion ''resume_download'' (Some (Fin 1)),
        Intersections \<lparr>perf_now = 200, date_now = 1700000000200\<rparr>
          [\<lparr>isIntersecting = True, intersectionRatio = 3 / 5, target_id = ''about''\<rparr>,
           \<lparr>isIntersecting = True, intersectionRatio = 4 / 5, target_id = ''about''\<rparr>]]
       (constructor \<lparr>perf_now = 40, date_now = 1700000000040\<rparr>))
   = Inr (4, 2)"
proof -
  have h: "run (Some (\<lambda>c. None))
       [NavClick \<lparr>perf_now = 100, date_now = 1700000000100\<rparr> (Some ''#about''),
        Conversion ''resume_download'' (Some (Fin 1)),
        Intersections \<lparr>perf_now = 200, date_now = 1700000000200\<rparr>
          [\<lparr>isIntersecting = True, intersectionRatio = 3 / 5, target_id = ''about''\<rparr>,
           \<lparr>isIntersecting = True, intersectionRatio = 4 / 5, target_id = ''about''\<rparr>]]
       (constructor \<lparr>perf_now = 40, date_now = 1700000000040\<rparr>)
     = Inr \<lparr>startTime = 40,
              interactions = [Navigation ''about'' 1700000000100,
                              SectionView ''about'' 1700000000200],
              performanceMetrics = [], maxScroll = Fin 0, scrollTimeout = False,
              sectionViews = [''about'' \<mapsto> 1700000000200],
              delivered =
                [\<lparr>action = ''navigation_click'', event_category = ''User Interaction'',
                  event_label = ''about'', event_value = None\<rparr>,
                 \<lparr>action = ''conversion'', event_category = ''Conversion'',
                  event_label = ''resume_download'', event_value = Some (Fin 1)\<rparr>,
                 \<lparr>action = ''resume_download'', event_category = ''Lead Generation'',
                  event_label = ''Resume Download'', event_value = Some (Fin 1)\<rparr>,
                 \<lparr>action = ''section_view'', event_category = ''User Behavior'',
                  event_label = ''about'', event_value = None\<rparr>]\<rparr>"
    by (simp add: constructor_def nav_click_def trackConversion_def trackEvent_def section_entry_def Let_def)
  show ?thesis
    unfolding h
    using totalInteractions_counts_pushes [OF h, of "\<lparr>perf_now = 300, date_now = 1700000000300\<rparr>"]
    by (simp add: visible_def)
qed

lemma round_half_up_range:
  "0 \<le> x \<Longrightarrow> x \<le> 100 \<Longrightarrow> 0 \<le> round_half_up x \<and> round_half_up x \<le> 100"
  unfolding round_half_up_def by (simp add: floor_le_iff le_floor_iff)

lemma scrollPercent_finite:
  "scrollHeight \<noteq> innerHeight \<Longrightarrow>
   scrollPercent scrollY scrollHeight innerHeight
     = Fin (of_int (round_half_up (scrollY / of_int (scrollHeight - innerHeight) * 100)))"
  by (simp add: scrollPercent_def js_div_def)

lemma scrollPercent_range:
  assumes "scrollHeight \<noteq> innerHeight" "0 \<le> scrollY"
    "scrollY \<le> of_int (scrollHeight - innerHeight)"
  shows "\<exists>p. scrollPercent scrollY scrollHeight innerHeight = Fin p \<and> 0 \<le> p \<and> p \<le> 100"
proof -
  let ?d = "real_of_int (scrollHeight - innerHeight)"
  from assms have d: "0 < ?d" by simp
  with assms have "0 \<le> scrollY / ?d * 100" by simp
  moreover from d assms(3) have "scrollY / ?d * 100 \<le> 100" by (simp add: field_simps)
  ultimately have "0 \<le> round_half_up (scrollY / ?d * 100)
      \<and> round_half_up (scrollY / ?d * 100) \<le> 100"
    by (rule round_half_up_range)
  then show ?thesis using assms(1) by (simp add: scrollPercent_finite)
qed

lemma dispatch_maxScroll:
  "dispatch sink ev w = Inr w' \<Longrightarrow>
   maxScroll w' = (case ev of
                     Scroll scrollY scrollHeight innerHeight \<Rightarrow>
                       Math_max (maxScroll w) (scrollPercent scrollY scrollHeight innerHeight)
                   | _ \<Rightarrow> maxScroll w)"
  by (cases ev)
     (auto simp: tracker_eq error_event_def unhandledrejection_def scroll_def
        section_entries_frame
        dest!: trackPageLoad_Inr click_Inr scroll_timeout_Inr memory_sample_Inr long_tasks_Inr
          trackEvent_Inr trackConversion_Inr trackPageExit_Inr)

lemma dispatch_maxScroll_grows:
  assumes "dispatch sink ev w = Inr w'" "divisor_nonzero ev" "maxScroll w = Fin m"
  shows "\<exists>m'. maxScroll w' = Fin m' \<and> m \<le> m' \<and> (within_page ev \<and> m \<le> 100 \<longrightarrow> m' \<le> 100)"
proof (cases ev)
  case (Scroll scrollY scrollHeight innerHeight)
  with assms have ne: "scrollHeight \<noteq> innerHeight" by simp
  let ?p = "real_of_int (round_half_up (scrollY / of_int (scrollHeight - innerHeight) * 100))"
  from dispatch_maxScroll [OF assms(1)] Scroll assms(3) scrollPercent_finite [OF ne]
  have m': "maxScroll w' = Fin (max m ?p)" by simp
  have "within_page ev \<Longrightarrow> ?p \<le> 100"
    using scrollPercent_range [OF ne, of scrollY] scrollPercent_finite [OF ne, of scrollY] Scroll
    by auto
  with m' show ?thesis by auto
qed (use dispatch_maxScroll [OF assms(1)] assms(3) in auto)

lemma run_maxScroll_grows:
  "run sink evs w = Inr w' \<Longrightarrow> \<forall>ev\<in>set evs. divisor_nonzero ev \<Longrightarrow> maxScroll w = Fin m \<Longrightarrow>
   \<exists>m'. maxScroll w' = Fin m' \<and> m \<le> m'
        \<and> ((\<forall>ev\<in>set evs. within_page ev) \<and> m \<le> 100 \<longrightarrow> m' \<le> 100)"
proof (induction evs arbitrary: w m)
  case Nil
  then show ?case by simp
next
  case (Cons ev evs)
  from Cons.prems(1) obtain w1 where
    h: "dispatch sink ev w = Inr w1" and r: "run sink evs w1 = Inr w'"
    by (auto split: sum.splits)
  from Cons.prems(2) have d: "divisor_nonzero ev" and ds: "\<forall>ev\<in>set evs. divisor_nonzero ev"
    by simp_all
  from dispatch_maxScroll_grows [OF h d Cons.prems(3)] obtain m1 where
    m1: "maxScroll w1 = Fin m1" "m \<le> m1" "within_page ev \<and> m \<le> 100 \<longrightarrow> m1 \<le> 100"
    by blast
  from Cons.IH [OF r ds m1(1)] obtain m' where
    m': "maxScroll w' = Fin m'" "m1 \<le> m'"
      "(\<forall>ev\<in>set evs. within_page ev) \<and> m1 \<le> 100 \<longrightarrow> m' \<le> 100"
    by blast
  from m1 m' show ?case by auto
qed

text \<open>
  C4, amended: over the scroll events whose divisor is not 0, the running maximum is a
  number that is never below 0 and never goes down as the session goes on; it stays at
  or below 100 as long as every scroll offset lies between 0 and
  \<^verbatim>\<open>scrollHeight - innerHeight\<close>.
\<close>

theorem maxScroll_monotone_bounded:
  assumes "run sink xs (constructor c0) = Inr w1"
    and "run sink ys w1 = Inr w2"
    and "\<forall>ev\<in>set (xs @ ys). divisor_nonzero ev"
  shows "js_le (Fin 0) (maxScroll w1)
         \<and> js_le (maxScroll w1) (maxScroll w2)
         \<and> ((\<forall>ev\<in>set xs. within_page ev) \<longrightarrow> js_le (maxScroll w1) (Fin 100))"
proof -
  from assms(3) have dx: "\<forall>ev\<in>set xs. divisor_nonzero ev" and dy: "\<forall>ev\<in>set ys. divisor_nonzero ev"
    by simp_all
  have "maxScroll (constructor c0) = Fin 0" by (simp add: constructor_def)
  from run_maxScroll_grows [OF assms(1) dx this] obtain m1 where
    m1: "maxScroll w1 = Fin m1" "0 \<le> m1" "(\<forall>ev\<in>set xs. within_page ev) \<longrightarrow> m1 \<le> 100"
    by auto
  from run_maxScroll_grows [OF assms(2) dy m1(1)] obtain m2 where
    "maxScroll w2 = Fin m2" "m1 \<le> m2"
    by auto
  with m1 show ?thesis by simp
qed

theorem maxScroll_monotone_bounded_witness:
  "run (Some (\<lambda>c. None)) [Scroll 250 1300 800] (constructor \<lparr>perf_now = 40, date_now = 1700000000040\<rparr>)
     = Inr \<lparr>startTime = 40, interactions = [], performanceMetrics = [], maxScroll = Fin 50,
               scrollTimeout = True, sectionViews = Map.empty, delivered = []\<rparr>
   \<and> run (Some (\<lambda>c. None)) [ScrollTimeout, Scroll 100 1300 800, Scroll 400 1300 800]
         \<lparr>startTime = 40, interactions = [], performanceMetrics = [], maxScroll = Fin 50,
               scrollTimeout = True, sectionViews = Map.empty, delivered = []\<rparr>
     = Inr \<lparr>startTime = 40, interactions = [], performanceMetrics = [], maxScroll = Fin 80,
               scrollTimeout = True, sectionViews = Map.empty, delivered = [\<lparr>action = ''scroll_depth'', event_category = ''User Behavior'',
                     event_label = ''Max Scroll Percentage'', event_value = Some (Fin 50)\<rparr>]\<rparr>
   \<and> js_le (Fin 0) (maxScroll \<lparr>startTime = 40, interactions = [], performanceMetrics = [], maxScroll = Fin 50,
               scrollTimeout = True, sectionViews = Map.empty, delivered = []\<rparr>)
   \<and> js_le (maxScroll \<lparr>startTime = 40, interactions = [], performanceMetrics = [], maxScroll = Fin 50,
               scrollTimeout = True, sectionViews = Map.empty, delivered = []\<rparr>)
           (maxScroll \<lparr>startTime = 40, interactions = [], performanceMetrics = [], maxScroll = Fin 80,
               scrollTimeout = True, sectionViews = Map.empty, delivered = [\<lparr>action = ''scroll_depth'', event_category = ''User Behavior'',
                     event_label = ''Max Scroll Percentage'', event_value = Some (Fin 50)\<rparr>]\<rparr>)
   \<and> js_le (maxScroll \<lparr>startTime = 40, interactions = [], performanceMetrics = [], maxScroll = Fin 50,
               scrollTimeout = True, sectionViews = Map.empty, delivered = []\<rparr>) (Fin 100)"
proof -
  have h1: "run (Some (\<lambda>c. None)) [Scroll 250 1300 800] (constructor \<lparr>perf_now = 40, date_now = 1700000000040\<rparr>)
     = Inr \<lparr>startTime = 40, interactions = [], performanceMetrics = [], maxScroll = Fin 50,
               scrollTimeout = True, sectionViews = Map.empty, delivered = []\<rparr>"
    by (simp add: constructor_def scroll_def scrollPercent_def js_div_def round_half_up_def)
  have h2: "run (Some (\<lambda>c. None)) [ScrollTimeout, Scroll 100 1300 800, Scroll 400 1300 800]
         \<lparr>startTime = 40, interactions = [], performanceMetrics = [], maxScroll = Fin 50,
               scrollTimeout = True, sectionViews = Map.empty, delivered = []\<rparr>
     = Inr \<lparr>startTime = 40, interactions = [], performanceMetrics = [], maxScroll = Fin 80,
               scrollTimeout = True, sectionViews = Map.empty, delivered = [\<lparr>action = ''scroll_depth'', event_category = ''User Behavior'',
                     event_label = ''Max Scroll Percentage'', event_value = Some (Fin 50)\<rparr>]\<rparr>"
    by (simp add: scroll_def scrollPercent_def js_div_def round_half_up_def scroll_timeout_def
          trackEvent_def)
  have d: "\<forall>ev\<in>set ([Scroll 250 1300 800] @ [ScrollTimeout, Scroll 100 1300 800, Scroll 400 1300 800]). divisor_nonzero ev"
    by simp
  have p: "\<forall>ev\<in>set [Scroll 250 1300 800]. within_page ev"
    by simp
  from maxScroll_monotone_bounded [OF h1 h2 d] p h1 h2 show ?thesis
    by blast
qed

lemma trackEvent_forwarded:
  "\<forall>c. g c = None \<Longrightarrow>
   trackEvent (Some g) act category label v w
     = Inr (w\<lparr>delivered := delivered w @
          [\<lparr>action = act, event_category = category, event_label = label, event_value = v\<rparr>]\<rparr>)"
  by (simp add: trackEvent_def)

lemma send_metrics_same:
  "\<forall>c. g c = None \<Longrightarrow> tracker w1 = tracker w2 \<Longrightarrow>
   \<exists>a b. send_metrics None ms w1 = Inr a \<and> send_metrics (Some g) ms w2 = Inr b
         \<and> tracker a = tracker b"
proof (induction ms arbitrary: w1 w2)
  case Nil
  then show ?case by simp
next
  case (Cons x ms)
  obtain metric v where x: "x = (metric, v)" by (cases x)
  show ?case
  proof (cases "js_less (Fin 0) v")
    case True
    let ?w2 = "w2\<lparr>delivered := delivered w2 @
          [\<lparr>action = metric, event_category = ''Performance'', event_label = metric,
            event_value = Some v\<rparr>]\<rparr>"
    from Cons.prems(2) have "tracker w1 = tracker ?w2" by (simp add: tracker_eq)
    from Cons.IH [OF Cons.prems(1) this] show ?thesis
      using True x Cons.prems(1) by (simp add: trackEvent_absent trackEvent_forwarded)
  next
    case False
    with Cons.IH [OF Cons.prems] x show ?thesis by simp
  qed
qed

lemma long_tasks_same:
  "\<forall>c. g c = None \<Longrightarrow> tracker w1 = tracker w2 \<Longrightarrow>
   \<exists>a b. long_tasks None ds w1 = Inr a \<and> long_tasks (Some g) ds w2 = Inr b
         \<and> tracker a = tracker b"
proof (induction ds arbitrary: w1 w2)
  case Nil
  then show ?case by simp
next
  case (Cons x ds)
  show ?case
  proof (cases "50 < x")
    case True
    let ?w2 = "w2\<lparr>delivered := delivered w2 @
          [\<lparr>action = ''long_task'', event_category = ''Performance'',
            event_label = ''Task Duration'', event_value = Some (Math_round (Fin x))\<rparr>]\<rparr>"
    from Cons.prems(2) have "tracker w1 = tracker ?w2" by (simp add: tracker_eq)
    from Cons.IH [OF Cons.prems(1) this] show ?thesis
      using True Cons.prems(1) by (simp add: trackEvent_absent trackEvent_forwarded)
  next
    case False
    with Cons.IH [OF Cons.prems] show ?thesis by simp
  qed
qed

lemma section_entry_same:
  "\<forall>c. g c = None \<Longrightarrow> tracker w1 = tracker w2 \<Longrightarrow>
   \<exists>a b. section_entry None now e w1 = Inr a \<and> section_entry (Some g) now e w2 = Inr b
         \<and> tracker a = tracker b"
  by (simp add: section_entry_def Let_def trackEvent_absent trackEvent_forwarded tracker_eq)

lemma section_entries_same:
  "\<forall>c. g c = None \<Longrightarrow> tracker w1 = tracker w2 \<Longrightarrow>
   \<exists>a b. section_entries None now es w1 = Inr a \<and> section_entries (Some g) now es w2 = Inr b
         \<and> tracker a = tracker b"
proof (induction es arbitrary: w1 w2)
  case Nil
  then show ?case by simp
next
  case (Cons e es)
  from section_entry_same [OF Cons.prems, of now e] obtain a b where
    ab: "section_entry None now e w1 = Inr a" "section_entry (Some g) now e w2 = Inr b"
      "tracker a = tracker b"
    by blast
  from Cons.IH [OF Cons.prems(1) ab(3)] ab(1,2) show ?case by simp
qed

lemma dispatch_same:
  assumes "\<forall>c. g c = None" and t: "tracker w1 = tracker w2"
  shows "map_sum (map_prod id tracker) tracker (dispatch None ev w1)
           = map_sum (map_prod id tracker) tracker (dispatch (Some g) ev w2)"
proof (cases ev)
  case (Load now p)
  let ?w2 = "w2\<lparr>delivered := delivered w2 @
          [\<lparr>action = ''page_load_time'', event_category = ''Performance'',
            event_label = ''Load Time'',
            event_value = Some (Math_round (Fin (perf_now now - startTime w2)))\<rparr>]\<rparr>"
  from t have st: "startTime w1 = startTime w2" by (simp add: tracker_eq)
  show ?thesis
  proof (cases "has_getEntriesByType p \<and> navigation_entries p \<noteq> []")
    case False
    then show ?thesis
      using Load assms
      by (auto simp: trackPageLoad_def Let_def trackEvent_absent trackEvent_forwarded tracker_eq
          split: list.splits)
  next
    case True
    then obtain navTiming others where n: "navigation_entries p = navTiming # others"
      by (cases "navigation_entries p") auto
    let ?m = "[(''domContentLoaded'',
                  Math_round (Fin (domContentLoadedEventEnd navTiming
                                    - domContentLoadedEventStart navTiming))),
               (''loadComplete'',
                  Math_round (Fin (loadEventEnd navTiming - loadEventStart navTiming))),
               (''firstPaint'', getFirstPaint p),
               (''firstContentfulPaint'', getFirstContentfulPaint p)]"
    from t have "tracker (w1\<lparr>performanceMetrics := ?m\<rparr>) = tracker (?w2\<lparr>performanceMetrics := ?m\<rparr>)"
      by (simp add: tracker_eq)
    from send_metrics_same [OF assms(1) this, of ?m] obtain a b where
      "send_metrics None ?m (w1\<lparr>performanceMetrics := ?m\<rparr>) = Inr a"
      "send_metrics (Some g) ?m (?w2\<lparr>performanceMetrics := ?m\<rparr>) = Inr b"
      "tracker a = tracker b"
      by blast
    then show ?thesis
      using Load True n assms(1) st
      by (simp add: trackPageLoad_def Let_def trackEvent_absent trackEvent_forwarded
          del: send_metrics.simps)
  qed
next
  case (Intersections now es)
  from section_entries_same [OF assms, of now es] Intersections show ?thesis by auto
next
  case (LongTasks ds)
  from long_tasks_same [OF assms, of ds] LongTasks show ?thesis by auto
qed (use assms in \<open>auto simp: nav_click_def social_click_def project_click_def cta_click_def
      theme_click_def scroll_def scroll_timeout_def memory_sample_def error_event_def
      unhandledrejection_def trackConversion_def trackPageExit_def Let_def trackEvent_absent
      trackEvent_forwarded tracker_eq split: option.splits\<close>)

lemma run_same:
  "\<forall>c. g c = None \<Longrightarrow> tracker w1 = tracker w2 \<Longrightarrow>
   map_sum (map_prod id tracker) tracker (run None evs w1)
     = map_sum (map_prod id tracker) tracker (run (Some g) evs w2)"
proof (induction evs arbitrary: w1 w2)
  case Nil
  then show ?case by simp
next
  case (Cons ev evs)
  note d = dispatch_same [OF Cons.prems, of ev]
  show ?case
  proof (cases "dispatch None ev w1")
    case (Inl e)
    with d show ?thesis by (cases "dispatch (Some g) ev w2") (auto simp: id_def)
  next
    case (Inr a)
    with d obtain b where b: "dispatch (Some g) ev w2 = Inr b" "tracker a = tracker b"
      by (cases "dispatch (Some g) ev w2") auto
    from Cons.IH [OF Cons.prems(1) b(2)] Inr b(1) show ?thesis by simp
  qed
qed

lemma dispatch_absent_error: "dispatch None ev w = Inl (e, w') \<Longrightarrow> e = TypeError"
proof (cases ev)
  case (Load now p)
  assume h: "dispatch None ev w = Inl (e, w')"
  have "\<And>m w. \<exists>a. send_metrics None m w = Inr a"
    using send_metrics_same [of "\<lambda>c. None"] by blast
  then have "\<And>m w. send_metrics None m w \<noteq> Inl (e, w')"
    by (metis Inl_Inr_False)
  with h Load show ?thesis
    by (auto simp: trackPageLoad_def Let_def trackEvent_absent split: list.splits if_splits
        simp del: send_metrics.simps)
next
  case (Intersections now es)
  assume h: "dispatch None ev w = Inl (e, w')"
  have "\<exists>a. section_entries None now es w = Inr a"
    using section_entries_same [of "\<lambda>c. None" w w] by blast
  with h Intersections show ?thesis by auto
next
  case (LongTasks ds)
  assume h: "dispatch None ev w = Inl (e, w')"
  have "\<exists>a. long_tasks None ds w = Inr a"
    using long_tasks_same [of "\<lambda>c. None" w w] by blast
  with h LongTasks show ?thesis by auto
qed (auto simp: nav_click_def social_click_def project_click_def cta_click_def
      theme_click_def scroll_timeout_def memory_sample_def error_event_def
      unhandledrejection_def trackConversion_def trackPageExit_def Let_def trackEvent_absent
      split: option.splits if_splits)

lemma run_absent_error: "run None evs w = Inl (e, w') \<Longrightarrow> e = TypeError"
proof (induction evs arbitrary: w)
  case Nil
  then show ?case by simp
next
  case (Cons ev evs)
  then show ?case
    by (cases "dispatch None ev w") (auto dest: dispatch_absent_error)
qed

text \<open>
  C6: with no \<^verbatim>\<open>gtag\<close> declared, \<^verbatim>\<open>trackEvent\<close> returns without an exception and
  leaves the state as it was; a whole session then ends as it does with a sink that
  returns, with the same tracker state or the same exception at the same tracker state,
  and no exception but the TypeError of a failed document lookup can end it.
\<close>

theorem absent_sink_silent:
  assumes "\<forall>c. g c = None"
  shows "trackEvent None act category label v w = Inr w
         \<and> map_sum (map_prod id tracker) tracker (run None evs w)
             = map_sum (map_prod id tracker) tracker (run (Some g) evs w)
         \<and> (\<forall>e w'. run None evs w = Inl (e, w') \<longrightarrow> e = TypeError)"
  using run_same [OF assms, of w w evs] run_absent_error [of evs w]
  by (simp add: trackEvent_absent)

theorem absent_sink_silent_witness:
  "trackEvent None ''cta_click'' ''User Interaction'' ''Hire me'' None
       (constructor \<lparr>perf_now = 40, date_now = 1700000000040\<rparr>)
     = Inr (constructor \<lparr>perf_now = 40, date_now = 1700000000040\<rparr>)
   \<and> run None
         [CtaClick \<lparr>perf_now = 100, date_now = 1700000000100\<rparr> '' Hire me '',
          Conversion ''contact_attempt'' None]
         (constructor \<lparr>perf_now = 40, date_now = 1700000000040\<rparr>)
     = Inr \<lparr>startTime = 40, interactions = [Cta ''Hire me'' 1700000000100],
               performanceMetrics = [], maxScroll = Fin 0, scrollTimeout = False,
               sectionViews = Map.empty, delivered = []\<rparr>
   \<and> map_sum (map_prod id tracker) tracker (run (Some (\<lambda>c. None))
         [CtaClick \<lparr>perf_now = 100, date_now = 1700000000100\<rparr> '' Hire me '',
          Conversion ''contact_attempt'' None]
         (constructor \<lparr>perf_now = 40, date_now = 1700000000040\<rparr>))
     = Inr \<lparr>startTime = 40, interactions = [Cta ''Hire me'' 1700000000100],
               performanceMetrics = [], maxScroll = Fin 0, scrollTimeout = False,
               sectionViews = Map.empty, delivered = []\<rparr>"
proof -
  have h: "run None
         [CtaClick \<lparr>perf_now = 100, date_now = 1700000000100\<rparr> '' Hire me '',
          Conversion ''contact_attempt'' None]
         (constructor \<lparr>perf_now = 40, date_now = 1700000000040\<rparr>)
     = Inr \<lparr>startTime = 40, interactions = [Cta ''Hire me'' 1700000000100],
               performanceMetrics = [], maxScroll = Fin 0, scrollTimeout = False,
               sectionViews = Map.empty, delivered = []\<rparr>"
    by (simp add: constructor_def cta_click_def trackConversion_def trackEvent_def trim_def
          is_space_def Let_def)
  have t: "tracker \<lparr>startTime = 40, interactions = [Cta ''Hire me'' 1700000000100],
               performanceMetrics = [], maxScroll = Fin 0, scrollTimeout = False,
               sectionViews = Map.empty, delivered = []\<rparr>
     = \<lparr>startTime = 40, interactions = [Cta ''Hire me'' 1700000000100],
               performanceMetrics = [], maxScroll = Fin 0, scrollTimeout = False,
               sectionViews = Map.empty, delivered = []\<rparr>"
    by (simp add: tracker_def)
  have g: "\<forall>c. (\<lambda>c. None :: js_error option) (c :: gtag_call) = None"
    by simp
  note a = absent_sink_silent [OF g, of "''cta_click''" "''User Interaction''" "''Hire me''" None
      "(constructor \<lparr>perf_now = 40, date_now = 1700000000040\<rparr>)"
      "[CtaClick \<lparr>perf_now = 100, date_now = 1700000000100\<rparr> '' Hire me '',
          Conversion ''contact_attempt'' None]"]
  from a have a1: "trackEvent None ''cta_click'' ''User Interaction'' ''Hire me'' None
       (constructor \<lparr>perf_now = 40, date_now = 1700000000040\<rparr>)
     = Inr (constructor \<lparr>perf_now = 40, date_now = 1700000000040\<rparr>)"
    by (rule conjunct1)
  from a have a2: "map_sum (map_prod id tracker) tracker (run None
         [CtaClick \<lparr>perf_now = 100, date_now = 1700000000100\<rparr> '' Hire me '',
          Conversion ''contact_attempt'' None]
         (constructor \<lparr>perf_now = 40, date_now = 1700000000040\<rparr>))
     = map_sum (map_prod id tracker) tracker (run (Some (\<lambda>c. None))
         [CtaClick \<lparr>perf_now = 100, date_now = 1700000000100\<rparr> '' Hire me '',
          Conversion ''contact_attempt'' None]
         (constructor \<lparr>perf_now = 40, date_now = 1700000000040\<rparr>))"
    by (rule conjunct1 [OF conjunct2])
  show ?thesis
    using a1 h a2 [unfolded h] t by (simp del: run.simps)
qed

subsection \<open>Section views, whatever the sink does\<close>




lemma section_entry_Inl:
  "section_entry sink now entry w = Inl (e, w') \<Longrightarrow>
   isIntersecting entry \<and> 1 / 2 < intersectionRatio entry
   \<and> sectionViews w (target_id entry) = None
   \<and> \<not> returns sink (view_call (target_id entry))
   \<and> w' = w\<lparr>sectionViews := (sectionViews w)(target_id entry \<mapsto> date_now now)\<rparr>"
  by (cases sink)
     (auto simp: section_entry_def Let_def trackEvent_def view_call_def
        split: if_splits sum.splits option.splits)

lemma section_entry_completes:
  "returns sink (view_call (target_id entry)) \<Longrightarrow> \<exists>w'. section_entry sink now entry w = Inr w'"
  by (cases "section_entry sink now entry w") (auto dest: section_entry_Inl)










lemma run_session: "run sink evs w = Inr w' \<Longrightarrow> session sink evs w = w'"
proof (induction evs arbitrary: w)
  case Nil
  then show ?case by simp
next
  case (Cons ev evs)
  then show ?case by (cases "dispatch sink ev w") auto
qed





end
